theory Spec2Isabelle
  imports Complex_Main "HOL-Library.Multiset"
begin

section \<open>Permutation- and mixture-invariant loss wrapper (pit\_wrapper.py)\<close>

text \<open>
  A shallow embedding of \<^verbatim>\<open>asteroid/losses/pit_wrapper.py\<close>. Python exceptions are
  values of the type \<open>error\<close>; a function that can raise returns \<open>error + 'a\<close>
  with \<open>Inl\<close> for the exception.
\<close>

subsection \<open>Exceptions\<close>

datatype error =
    ValueError
  | AssertionError
  | ZeroDivisionError
  | IndexError
  | RuntimeError
  | TypeError

subsection \<open>The wrapper object and its constructor\<close>

text \<open>
  \<^verbatim>\<open>PITLossWrapper.__init__\<close> stores its three arguments and raises \<^verbatim>\<open>ValueError\<close>
  when \<^verbatim>\<open>pit_from\<close> is not one of the five mode strings. The types of the two
  callbacks are left open here; \<open>forward\<close> fixes them further down.
\<close>

record ('f, 'r) PITLossWrapper =
  loss_func :: 'f
  pit_from :: string
  perm_reduce :: "'r option"

definition supported_modes :: "string list" where
  "supported_modes = [''pw_mtx'', ''pw_pt'', ''perm_avg'', ''mix_it'', ''mix_it_gen'']"

definition init :: "'f \<Rightarrow> string \<Rightarrow> 'r option \<Rightarrow> error + ('f, 'r) PITLossWrapper" where
  "init lf pf pr =
     (if pf \<notin> set supported_modes then Inl ValueError
      else Inr \<lparr>loss_func = lf, pit_from = pf, perm_reduce = pr\<rparr>)"

subsection \<open>itertools\<close>

text \<open>
  \<^verbatim>\<open>itertools.combinations(lst, k)\<close>: the \<open>k\<close>-element subsequences of \<open>lst\<close>, in
  lexicographic order of the positions chosen.
\<close>

fun combinations :: "'a list \<Rightarrow> nat \<Rightarrow> 'a list list" where
  "combinations xs 0 = [[]]"
| "combinations [] (Suc k) = []"
| "combinations (x # xs) (Suc k) =
     map (\<lambda>c. x # c) (combinations xs k) @ combinations xs (Suc k)"

text \<open>
  \<open>picks xs\<close> lists every way to take one element out of \<open>xs\<close>, from the left, with
  the elements that remain in their order.
\<close>

fun picks :: "'a list \<Rightarrow> ('a \<times> 'a list) list" where
  "picks [] = []"
| "picks (x # xs) = (x, xs) # map (\<lambda>(y, ys). (y, x # ys)) (picks xs)"

text \<open>
  \<^verbatim>\<open>itertools.permutations(lst, r)\<close>: the \<open>r\<close>-length arrangements of \<open>lst\<close> in
  lexicographic order of the positions chosen; \<^verbatim>\<open>permutations(lst)\<close> takes
  \<open>r = len(lst)\<close>.
\<close>

fun permutations_r :: "nat \<Rightarrow> 'a list \<Rightarrow> 'a list list" where
  "permutations_r 0 xs = [[]]"
| "permutations_r (Suc r) xs =
     concat (map (\<lambda>(y, ys). map (\<lambda>p. y # p) (permutations_r r ys)) (picks xs))"

definition permutations :: "'a list \<Rightarrow> 'a list list" where
  "permutations xs = permutations_r (length xs) xs"

text \<open>\<^verbatim>\<open>range(n)\<close>.\<close>

definition range :: "nat \<Rightarrow> nat list" where
  "range n = [0..<n]"

subsection \<open>Partition enumeration\<close>

text \<open>
  The generator \<^verbatim>\<open>combs(lst, k, l)\<close> inside \<^verbatim>\<open>best_part_mix_it\<close>: for every
  \<open>k\<close>-combination \<open>c\<close> of \<open>lst\<close>, in order, every result of \<open>combs\<close> on the
  elements not in \<open>c\<close> with one part less, with \<open>c\<close> put in front.
\<close>

fun combs :: "'a list \<Rightarrow> nat \<Rightarrow> nat \<Rightarrow> 'a list list list" where
  "combs lst k 0 = [[]]"
| "combs lst k (Suc l) =
     concat (map (\<lambda>c. map (\<lambda>r. c # r) (combs (filter (\<lambda>x. x \<notin> set c) lst) k l))
                 (combinations lst k))"

text \<open>
  \<^verbatim>\<open>all_combinations(lst)\<close> inside \<^verbatim>\<open>best_part_mix_it_generalized\<close>: for every size
  \<open>k\<close> from \<open>0\<close> to \<open>len(lst)\<close> and every \<open>k\<close>-combination \<open>c\<close>, the pair
  \<^verbatim>\<open>[list(c), rest]\<close>.
\<close>

definition all_combinations :: "'a list \<Rightarrow> 'a list list list" where
  "all_combinations lst =
     concat (map (\<lambda>k. map (\<lambda>c. [c, filter (\<lambda>x. x \<notin> set c) lst]) (combinations lst k))
                 [0..<length lst + 1])"

subsection \<open>Sequencing calls that can raise\<close>

text \<open>
  A Python loop or comprehension whose body can raise stops at the first exception.
  \<open>collect\<close> turns the list of outcomes, in evaluation order, into the first
  exception or the list of all results.
\<close>

fun collect :: "(error + 'a) list \<Rightarrow> error + 'a list" where
  "collect [] = Inr []"
| "collect (Inl e # rs) = Inl e"
| "collect (Inr x # rs) = (case collect rs of Inl e \<Rightarrow> Inl e | Inr xs \<Rightarrow> Inr (x # xs))"

subsection \<open>Tensors\<close>

text \<open>
  A \<^verbatim>\<open>torch.Tensor\<close> is its \<open>shape\<close> (any rank) and, when it has rank three, its
  entries: \<open>rows t ! b ! i ! j\<close> is \<^verbatim>\<open>t[b, i, j]\<close>. A function of the model that reads
  the entries of a tensor of another rank returns an exception. Batch vectors
  (shape \<^verbatim>\<open>[batch]\<close>) are lists, index tensors (\<^verbatim>\<open>LongTensor\<close> of shape
  \<^verbatim>\<open>[batch, n_src]\<close>) are lists of lists of naturals. Floating-point numbers are
  idealised as elements of an ordered field: there is no rounding and no \<^verbatim>\<open>nan\<close>
  (the mean of an empty list and a division by zero are \<open>0\<close> here, \<^verbatim>\<open>nan\<close> in torch).
\<close>

record 'a tensor =
  shape :: "nat list"
  rows :: "'a list list list"

text \<open>The entries agree with the shape: the representation invariant of a rank-3 tensor.\<close>

definition wf_tensor :: "'a tensor \<Rightarrow> bool" where
  "wf_tensor t =
     (case shape t of
        [B, N, T] \<Rightarrow> length (rows t) = B \<and>
           list_all (\<lambda>m. length m = N \<and> list_all (\<lambda>r. length r = T) m) (rows t)
      | _ \<Rightarrow> False)"

text \<open>\<^verbatim>\<open>torch.mean\<close> over all entries.\<close>

definition mean :: "'a::field list \<Rightarrow> 'a" where
  "mean xs = sum_list xs / of_nat (length xs)"

text \<open>
  \<^verbatim>\<open>torch.min(loss_set, dim=1)\<close>: for each row the least value and the index of its
  first occurrence (torch documents that the index of the first minimal value is
  returned). A row without entries has no minimum and torch raises.
\<close>

fun torch_min :: "'a::linorder list \<Rightarrow> ('a \<times> nat) option" where
  "torch_min [] = None"
| "torch_min (x # xs) =
     (case torch_min xs of
        None \<Rightarrow> Some (x, 0)
      | Some (m, i) \<Rightarrow> if x \<le> m then Some (x, 0) else Some (m, Suc i))"

definition torch_min_dim1 :: "'a::linorder list list \<Rightarrow> error + ('a list \<times> nat list)" where
  "torch_min_dim1 loss_set =
     (case collect (map (\<lambda>r. case torch_min r of None \<Rightarrow> Inl RuntimeError | Some p \<Rightarrow> Inr p) loss_set) of
        Inl e \<Rightarrow> Inl e
      | Inr ps \<Rightarrow> Inr (map fst ps, map snd ps))"

text \<open>\<^verbatim>\<open>torch.stack\<close> along dimension 0 needs at least one tensor.\<close>

definition torch_stack :: "'b list \<Rightarrow> error + 'b list" where
  "torch_stack ts = (case ts of [] \<Rightarrow> Inl RuntimeError | _ \<Rightarrow> Inr ts)"

text \<open>\<^verbatim>\<open>torch.stack([perms[m] for m in min_loss_idx], dim=0)\<close>.\<close>

definition select_perms :: "nat list list \<Rightarrow> nat list \<Rightarrow> error + nat list list" where
  "select_perms perms min_loss_idx =
     (case collect (map (\<lambda>m. if m < length perms then Inr (perms ! m) else Inl IndexError) min_loss_idx) of
        Inl e \<Rightarrow> Inl e
      | Inr ps \<Rightarrow> torch_stack ps)"

subsection \<open>Permutation search\<close>

text \<open>
  \<^verbatim>\<open>transpose(-1, -2)\<close> of one \<open>a \<times> c\<close> matrix, and the one-hot matrix that
  \<^verbatim>\<open>new_zeros(...).scatter_(2, idx, 1)\<close> builds for one permutation: row \<open>i\<close> has a
  \<open>1\<close> at column \<open>perm[i]\<close>.
\<close>

definition transpose_last2 :: "nat \<Rightarrow> nat \<Rightarrow> 'a list list \<Rightarrow> 'a list list" where
  "transpose_last2 a c m = map (\<lambda>j. map (\<lambda>i. m ! i ! j) [0..<a]) [0..<c]"

definition one_hot :: "nat \<Rightarrow> nat list \<Rightarrow> 'a::zero_neq_one list list" where
  "one_hot n perm = map (\<lambda>i. map (\<lambda>j. if j = perm ! i then 1 else 0) [0..<n]) [0..<n]"

text \<open>\<^verbatim>\<open>torch.einsum("bij,pij->bp", [pwl, perms_one_hot])\<close>.\<close>

definition einsum_bij_pij_bp :: "'a::semiring_0 list list list \<Rightarrow> 'a list list list \<Rightarrow> 'a list list" where
  "einsum_bij_pij_bp pwl ohs =
     map (\<lambda>m. map (\<lambda>oh. sum_list (map (\<lambda>(r, s). sum_list (map (\<lambda>(x, y). x * y) (zip r s))) (zip m oh))) ohs) pwl"

text \<open>
  The optional callback \<^verbatim>\<open>perm_reduce\<close>, with its keyword arguments already applied:
  from \<^verbatim>\<open>[batch, n_src!, n_src]\<close> to \<^verbatim>\<open>[batch, n_src!]\<close>, or an exception.
\<close>

type_synonym 'a reduce_fn = "'a list list list \<Rightarrow> error + 'a list list"

text \<open>
  \<^verbatim>\<open>find_best_perm_factorial\<close>, first part: the tensor \<^verbatim>\<open>loss_set\<close> of one score per
  batch row and permutation. The argument is documented as \<^verbatim>\<open>[batch, n_src, n_src]\<close>;
  for another shape the model returns \<^verbatim>\<open>RuntimeError\<close> (torch raises in
  \<^verbatim>\<open>einsum\<close> or in the indexing, or broadcasts an axis of size one).
\<close>

definition factorial_loss_set ::
  "'a::linordered_field tensor \<Rightarrow> 'a reduce_fn option \<Rightarrow> error + 'a list list" where
  "factorial_loss_set pair_wise_losses reduce_opt =
     (case shape pair_wise_losses of
        [B, a, n_src] \<Rightarrow>
          if a \<noteq> n_src then Inl RuntimeError
          else
            let pwl = map (transpose_last2 a n_src) (rows pair_wise_losses);
                perms = permutations (range n_src)
            in (case reduce_opt of
                  None \<Rightarrow>
                    let perms_one_hot = map (one_hot n_src) perms;
                        loss_set = einsum_bij_pij_bp pwl perms_one_hot
                    in Inr (map (map (\<lambda>x. x / of_nat n_src)) loss_set)
                | Some reduce \<Rightarrow>
                    let pwl_set = map (\<lambda>m. map (\<lambda>perm. map (\<lambda>i. m ! i ! (perm ! i)) (range n_src)) perms) pwl
                    in reduce pwl_set)
      | _ \<Rightarrow> Inl RuntimeError)"

text \<open>Second part: the minimum of every row and the permutation at its index.\<close>

definition find_best_perm_factorial ::
  "'a::linordered_field tensor \<Rightarrow> 'a reduce_fn option \<Rightarrow> error + ('a list \<times> nat list list)" where
  "find_best_perm_factorial pair_wise_losses reduce_opt =
     (case factorial_loss_set pair_wise_losses reduce_opt of
        Inl e \<Rightarrow> Inl e
      | Inr loss_set \<Rightarrow>
          (case torch_min_dim1 loss_set of
             Inl e \<Rightarrow> Inl e
           | Inr (min_loss, min_loss_idx) \<Rightarrow>
               (case select_perms (permutations (range (last (shape pair_wise_losses)))) min_loss_idx of
                  Inl e \<Rightarrow> Inl e
                | Inr batch_indices \<Rightarrow> Inr (min_loss, batch_indices))))"

text \<open>
  \<^verbatim>\<open>scipy.optimize.linear_sum_assignment\<close> is a parameter of the model: it takes one
  cost matrix and returns the pair \<^verbatim>\<open>(row_ind, col_ind)\<close> or raises.
\<close>

type_synonym 'a lsa_fn = "'a list list \<Rightarrow> error + (nat list \<times> nat list)"

text \<open>
  \<^verbatim>\<open>torch.gather(pwl, 2, batch_indices[..., None]).mean([-1, -2])\<close> for one batch row:
  the mean of the entries \<^verbatim>\<open>pwl[b, i, col[i]]\<close>.
\<close>

definition gather_mean :: "nat \<Rightarrow> nat \<Rightarrow> 'a::field list list \<Rightarrow> nat list \<Rightarrow> error + 'a" where
  "gather_mean n a m col =
     (if length col \<le> n \<and> list_all (\<lambda>j. j < a) col
      then Inr (mean (map (\<lambda>i. m ! i ! (col ! i)) [0..<length col]))
      else Inl RuntimeError)"

definition find_best_perm_hungarian ::
  "'a lsa_fn \<Rightarrow> 'a::linordered_field tensor \<Rightarrow> error + ('a list \<times> nat list list)" where
  "find_best_perm_hungarian lsa pair_wise_losses =
     (case shape pair_wise_losses of
        [B, a, n_src] \<Rightarrow>
          let pwl = map (transpose_last2 a n_src) (rows pair_wise_losses)
          in (case collect (map (\<lambda>m. case lsa m of Inl e \<Rightarrow> Inl e | Inr (row_ind, col_ind) \<Rightarrow> Inr col_ind) pwl) of
                Inl e \<Rightarrow> Inl e
              | Inr batch_indices \<Rightarrow>
                  (case batch_indices of
                     [] \<Rightarrow> Inl RuntimeError
                   | _ \<Rightarrow>
                     (case collect (map (\<lambda>(m, col). gather_mean n_src a m col) (zip pwl batch_indices)) of
                        Inl e \<Rightarrow> Inl e
                      | Inr min_loss \<Rightarrow> Inr (min_loss, batch_indices))))
      | _ \<Rightarrow> Inl RuntimeError)"

text \<open>The dispatch between the two searches.\<close>

definition find_best_perm ::
  "'a lsa_fn \<Rightarrow> 'a::linordered_field tensor \<Rightarrow> 'a reduce_fn option \<Rightarrow> error + ('a list \<times> nat list list)" where
  "find_best_perm lsa pair_wise_losses reduce_opt =
     (case shape pair_wise_losses of
        [] \<Rightarrow> Inl IndexError
      | _ \<Rightarrow>
          let n_src = last (shape pair_wise_losses)
          in if reduce_opt \<noteq> None \<or> n_src \<le> 3
             then find_best_perm_factorial pair_wise_losses reduce_opt
             else find_best_perm_hungarian lsa pair_wise_losses)"

subsection \<open>The loss callback\<close>

text \<open>
  The class documents three kinds of \<^verbatim>\<open>loss_func\<close>: one that returns the pairwise
  matrix (\<^verbatim>\<open>'pw_mtx'\<close>), one that compares a single source with a single estimate
  and returns one value per batch row (\<^verbatim>\<open>'pw_pt'\<close>), and one that takes tensors with
  the source axis and returns one value per batch row (\<^verbatim>\<open>'perm_avg'\<close>,
  \<^verbatim>\<open>'mix_it'\<close>, \<^verbatim>\<open>'mix_it_gen'\<close>). Keyword arguments are part of the callback.
  Python does not check the kind; in the model a callback of a kind that its mode
  does not call is reported as \<^verbatim>\<open>TypeError\<close>. In the functions below the
  parameters \<open>lossf\<close> and \<open>reduce_opt\<close> stand for the source's \<^verbatim>\<open>loss_func\<close> and
  \<^verbatim>\<open>perm_reduce\<close>, which are the names of the wrapper's fields here.
\<close>

type_synonym 'a pw_mtx_fn = "'a tensor \<Rightarrow> 'a tensor \<Rightarrow> error + 'a tensor"

type_synonym 'a pw_pt_fn = "'a list list \<Rightarrow> 'a list list \<Rightarrow> error + 'a list"

type_synonym 'a src_fn = "'a tensor \<Rightarrow> 'a tensor \<Rightarrow> error + 'a list"

datatype 'a loss_fn =
    PairwiseMatrix "'a pw_mtx_fn"
  | PairwisePoint "'a pw_pt_fn"
  | SourceAxis "'a src_fn"

subsection \<open>Reordering\<close>

text \<open>\<^verbatim>\<open>torch.index_select(s, 0, b)\<close> raises when an index is out of range.\<close>

definition index_select0 :: "'b list \<Rightarrow> nat list \<Rightarrow> error + 'b list" where
  "index_select0 s b =
     (if list_all (\<lambda>k. k < length s) b then Inr (map (\<lambda>k. s ! k) b) else Inl IndexError)"

definition reorder_source :: "'a tensor \<Rightarrow> nat list list \<Rightarrow> error + 'a tensor" where
  "reorder_source source batch_indices =
     (case shape source of
        [B, N, T] \<Rightarrow>
          (case collect (map (\<lambda>(s, b). index_select0 s b) (zip (rows source) batch_indices)) of
             Inl e \<Rightarrow> Inl e
           | Inr selected \<Rightarrow>
               (case torch_stack selected of
                  Inl e \<Rightarrow> Inl e
                | Inr reordered_sources \<Rightarrow>
                    Inr \<lparr>shape = [length reordered_sources, length (hd reordered_sources), T],
                         rows = reordered_sources\<rparr>))
      | _ \<Rightarrow> Inl RuntimeError)"

subsection \<open>Mixture-invariant partition search\<close>

text \<open>
  \<^verbatim>\<open>torch.sum(est_targets[:, indexes, :], axis=1)\<close> for one batch row, and
  \<^verbatim>\<open>torch.stack([... for indexes in partition], axis=1)\<close>. The name \<open>part\<close> stands
  for the source's \<^verbatim>\<open>partition\<close>.
\<close>

definition sum_axis :: "nat \<Rightarrow> 'a::comm_monoid_add list list \<Rightarrow> 'a list" where
  "sum_axis T srcs = map (\<lambda>t. sum_list (map (\<lambda>s. s ! t) srcs)) [0..<T]"

definition mix_row :: "nat \<Rightarrow> 'a::comm_monoid_add list list \<Rightarrow> nat list list \<Rightarrow> 'a list list" where
  "mix_row T r part = map (\<lambda>indexes. sum_axis T (map (\<lambda>i. r ! i) indexes)) part"

definition mix_sources :: "'a::comm_monoid_add tensor \<Rightarrow> nat list list \<Rightarrow> 'a tensor" where
  "mix_sources est_targets part =
     \<lparr>shape = [shape est_targets ! 0, length part, shape est_targets ! 2],
      rows = map (\<lambda>r. mix_row (shape est_targets ! 2) r part) (rows est_targets)\<rparr>"

text \<open>
  \<^verbatim>\<open>torch.cat\<close> of the columns \<^verbatim>\<open>loss[:, None]\<close> along dimension 1 (and
  \<^verbatim>\<open>torch.stack(..., dim=1)\<close> of batch vectors): needs at least one column, and all
  of one length.
\<close>

definition torch_cat_columns :: "'a list list \<Rightarrow> error + 'a list list" where
  "torch_cat_columns cols =
     (case cols of
        [] \<Rightarrow> Inl RuntimeError
      | c # cs \<Rightarrow>
          if list_all (\<lambda>d. length d = length c) cs
          then Inr (map (\<lambda>b. map (\<lambda>d. d ! b) cols) [0..<length c])
          else Inl RuntimeError)"

text \<open>
  The code shared by the two partition searches after their loops: concatenate the
  losses, take the minimum of each batch row, check the batch size, and sum the
  estimates of each row again by its winning partition.
\<close>

definition best_of_parts ::
  "'a::linordered_field tensor \<Rightarrow> nat \<Rightarrow> nat list list list \<Rightarrow> 'a list list
     \<Rightarrow> error + ('a list \<times> 'a tensor)" where
  "best_of_parts est_targets n_mixtures parts losses =
     (case torch_cat_columns losses of
        Inl e \<Rightarrow> Inl e
      | Inr loss_set \<Rightarrow>
          (case torch_min_dim1 loss_set of
             Inl e \<Rightarrow> Inl e
           | Inr (min_loss, min_loss_indexes) \<Rightarrow>
               if length min_loss_indexes \<noteq> shape est_targets ! 0 then Inl AssertionError
               else Inr (min_loss,
                 \<lparr>shape = [shape est_targets ! 0, n_mixtures, shape est_targets ! 2],
                  rows = map (\<lambda>(r, idx). mix_row (shape est_targets ! 2) r (parts ! idx))
                             (zip (rows est_targets) min_loss_indexes)\<rparr>)))"

text \<open>
  \<^verbatim>\<open>best_part_mix_it\<close>. \<^verbatim>\<open>n_est % n_mixtures\<close> raises \<^verbatim>\<open>ZeroDivisionError\<close> when
  \<^verbatim>\<open>n_mixtures\<close> is \<open>0\<close>.
\<close>

definition best_part_mix_it ::
  "'a::linordered_field src_fn \<Rightarrow> 'a tensor \<Rightarrow> 'a tensor \<Rightarrow> error + ('a list \<times> 'a tensor)" where
  "best_part_mix_it lossf est_targets targets =
     (case (shape est_targets, shape targets) of
        ([B, n_est, T], [B', n_mixtures, T']) \<Rightarrow>
          if B \<noteq> B' then Inl AssertionError
          else if T \<noteq> T' then Inl AssertionError
          else if n_mixtures = 0 then Inl ZeroDivisionError
          else if n_est mod n_mixtures \<noteq> 0 then Inl ValueError
          else
            let n_src = n_est div n_mixtures;
                parts = combs (range n_est) n_src n_mixtures
            in (case collect (map (\<lambda>part.
                      case part of
                        [] \<Rightarrow> Inl IndexError
                      | g # _ \<Rightarrow>
                          if length g \<noteq> n_src then Inl AssertionError
                          else if length part \<noteq> n_mixtures then Inl AssertionError
                          else lossf (mix_sources est_targets part) targets) parts) of
                  Inl e \<Rightarrow> Inl e
                | Inr losses \<Rightarrow> best_of_parts est_targets n_mixtures parts losses)
      | _ \<Rightarrow> Inl IndexError)"

definition best_part_mix_it_generalized ::
  "'a::linordered_field src_fn \<Rightarrow> 'a tensor \<Rightarrow> 'a tensor \<Rightarrow> error + ('a list \<times> 'a tensor)" where
  "best_part_mix_it_generalized lossf est_targets targets =
     (case (shape est_targets, shape targets) of
        ([B, n_est, T], [B', n_mixtures, T']) \<Rightarrow>
          if B \<noteq> B' then Inl AssertionError
          else if T \<noteq> T' then Inl AssertionError
          else if n_mixtures \<noteq> 2 then Inl ValueError
          else
            let parts = all_combinations (range n_est)
            in (case collect (map (\<lambda>part.
                      if length part \<noteq> n_mixtures then Inl AssertionError
                      else lossf (mix_sources est_targets part) targets) parts) of
                  Inl e \<Rightarrow> Inl e
                | Inr losses \<Rightarrow> best_of_parts est_targets n_mixtures parts losses)
      | _ \<Rightarrow> Inl IndexError)"

subsection \<open>Pairwise losses from a point loss\<close>

text \<open>
  \<^verbatim>\<open>get_pw_losses\<close>. \<open>transpose01 t\<close> lists what iterating over
  \<^verbatim>\<open>t.transpose(0, 1)\<close> yields. \<^verbatim>\<open>targets.new_empty\<close> returns uninitialised memory:
  its content is a parameter. The loop calls the callback, then writes the column
  \<^verbatim>\<open>pair_wise_losses[:, est_idx, target_idx]\<close>.
\<close>

definition transpose01 :: "'a tensor \<Rightarrow> 'a list list list" where
  "transpose01 t = map (\<lambda>i. map (\<lambda>r. r ! i) (rows t)) [0..<shape t ! 1]"

definition assign_pw :: "'a list list list \<Rightarrow> nat \<Rightarrow> nat \<Rightarrow> 'a list \<Rightarrow> 'a list list list" where
  "assign_pw pw i j v = map (\<lambda>(m, x). m[i := (m ! i)[j := x]]) (zip pw v)"

fun pw_loop ::
  "'a pw_pt_fn \<Rightarrow> nat \<Rightarrow> nat \<Rightarrow> ((nat \<times> 'a list list) \<times> (nat \<times> 'a list list)) list
     \<Rightarrow> 'a list list list \<Rightarrow> error + 'a list list list" where
  "pw_loop lossf batch_size n_src [] pw = Inr pw"
| "pw_loop lossf batch_size n_src (((est_idx, est_src), (target_idx, target_src)) # todo) pw =
     (case lossf est_src target_src of
        Inl e \<Rightarrow> Inl e
      | Inr v \<Rightarrow>
          if \<not> est_idx < n_src then Inl IndexError
          else if length v \<noteq> batch_size then Inl RuntimeError
          else pw_loop lossf batch_size n_src todo (assign_pw pw est_idx target_idx v))"

type_synonym 'a new_empty_fn = "nat \<Rightarrow> nat \<Rightarrow> nat \<Rightarrow> 'a list list list"

definition get_pw_losses ::
  "'a new_empty_fn \<Rightarrow> 'a pw_pt_fn \<Rightarrow> 'a tensor \<Rightarrow> 'a tensor \<Rightarrow> error + 'a tensor" where
  "get_pw_losses new_empty lossf est_targets targets =
     (case (shape est_targets, shape targets) of
        ([B, n_est, T], [batch_size, n_src, T']) \<Rightarrow>
          (case pw_loop lossf batch_size n_src
                  (concat (map (\<lambda>e. map (\<lambda>t. (e, t)) (List.enumerate 0 (transpose01 targets)))
                               (List.enumerate 0 (transpose01 est_targets))))
                  (new_empty batch_size n_src n_src) of
             Inl e \<Rightarrow> Inl e
           | Inr pair_wise_losses \<Rightarrow>
               Inr \<lparr>shape = [batch_size, n_src, n_src], rows = pair_wise_losses\<rparr>)
      | _ \<Rightarrow> Inl RuntimeError)"

subsection \<open>Best permutation from a permutation-average loss\<close>

definition best_perm_from_perm_avg_loss ::
  "'a::linordered_field src_fn \<Rightarrow> 'a tensor \<Rightarrow> 'a tensor \<Rightarrow> error + ('a list \<times> nat list list)" where
  "best_perm_from_perm_avg_loss lossf est_targets targets =
     (case (shape est_targets, shape targets) of
        ([B, n_est, T], [B', n_src, T']) \<Rightarrow>
          let perms = permutations (range n_src)
          in (case collect (map (\<lambda>perm.
                    if \<not> list_all (\<lambda>k. k < n_est) perm then Inl IndexError
                    else lossf \<lparr>shape = [B, length perm, T],
                                rows = map (\<lambda>r. map (\<lambda>k. r ! k) perm) (rows est_targets)\<rparr> targets) perms) of
                Inl e \<Rightarrow> Inl e
              | Inr losses \<Rightarrow>
                  (case torch_cat_columns losses of
                     Inl e \<Rightarrow> Inl e
                   | Inr loss_set \<Rightarrow>
                       (case torch_min_dim1 loss_set of
                          Inl e \<Rightarrow> Inl e
                        | Inr (min_loss, min_loss_idx) \<Rightarrow>
                            (case select_perms perms min_loss_idx of
                               Inl e \<Rightarrow> Inl e
                             | Inr batch_indices \<Rightarrow> Inr (min_loss, batch_indices)))))
      | _ \<Rightarrow> Inl RuntimeError)"

subsection \<open>forward\<close>

text \<open>
  What \<^verbatim>\<open>forward\<close> returns: \<^verbatim>\<open>None\<close>, the scalar \<^verbatim>\<open>mean_loss\<close>, or the pair
  \<^verbatim>\<open>(mean_loss, reordered)\<close>.
\<close>

datatype 'a forward_result =
    ReturnNone
  | ReturnLoss 'a
  | ReturnLossEst 'a "'a tensor"

type_synonym 'a wrapper = "('a loss_fn, 'a reduce_fn) PITLossWrapper"

text \<open>
  The end of \<^verbatim>\<open>forward\<close> that the modes \<^verbatim>\<open>'pw_mtx'\<close> and \<^verbatim>\<open>'pw_pt'\<close> reach with
  their \<^verbatim>\<open>pw_losses\<close>.
\<close>

definition forward_pairwise ::
  "'a lsa_fn \<Rightarrow> 'a::linordered_field wrapper \<Rightarrow> 'a tensor \<Rightarrow> 'a tensor \<Rightarrow> bool \<Rightarrow> 'a tensor
     \<Rightarrow> error + 'a forward_result" where
  "forward_pairwise lsa self est_targets targets return_est pw_losses =
     (if length (shape pw_losses) \<noteq> 3 then Inl AssertionError
      else if shape pw_losses ! 0 \<noteq> shape targets ! 0 then Inl AssertionError
      else
        (case find_best_perm lsa pw_losses (perm_reduce self) of
           Inl e \<Rightarrow> Inl e
         | Inr (min_loss, batch_indices) \<Rightarrow>
             let mean_loss = mean min_loss
             in if \<not> return_est then Inr (ReturnLoss mean_loss)
                else (case reorder_source est_targets batch_indices of
                        Inl e \<Rightarrow> Inl e
                      | Inr reordered \<Rightarrow> Inr (ReturnLossEst mean_loss reordered))))"

text \<open>The \<^verbatim>\<open>if\<close>/\<^verbatim>\<open>elif\<close> chain over \<^verbatim>\<open>self.pit_from\<close>.\<close>

definition forward_dispatch ::
  "'a lsa_fn \<Rightarrow> 'a new_empty_fn \<Rightarrow> 'a::linordered_field wrapper \<Rightarrow> 'a tensor \<Rightarrow> 'a tensor \<Rightarrow> bool
     \<Rightarrow> error + 'a forward_result" where
  "forward_dispatch lsa new_empty self est_targets targets return_est =
     (if pit_from self = ''pw_mtx'' then
        (case loss_func self of
           PairwiseMatrix f \<Rightarrow>
             (case f est_targets targets of
                Inl e \<Rightarrow> Inl e
              | Inr pw_losses \<Rightarrow> forward_pairwise lsa self est_targets targets return_est pw_losses)
         | _ \<Rightarrow> Inl TypeError)
      else if pit_from self = ''pw_pt'' then
        (case loss_func self of
           PairwisePoint f \<Rightarrow>
             (case get_pw_losses new_empty f est_targets targets of
                Inl e \<Rightarrow> Inl e
              | Inr pw_losses \<Rightarrow> forward_pairwise lsa self est_targets targets return_est pw_losses)
         | _ \<Rightarrow> Inl TypeError)
      else if pit_from self = ''perm_avg'' then
        (case loss_func self of
           SourceAxis f \<Rightarrow>
             (case best_perm_from_perm_avg_loss f est_targets targets of
                Inl e \<Rightarrow> Inl e
              | Inr (min_loss, batch_indices) \<Rightarrow>
                  let mean_loss = mean min_loss
                  in if \<not> return_est then Inr (ReturnLoss mean_loss)
                     else (case reorder_source est_targets batch_indices of
                             Inl e \<Rightarrow> Inl e
                           | Inr reordered \<Rightarrow> Inr (ReturnLossEst mean_loss reordered)))
         | _ \<Rightarrow> Inl TypeError)
      else if pit_from self = ''mix_it'' then
        (case loss_func self of
           SourceAxis f \<Rightarrow>
             (case best_part_mix_it f est_targets targets of
                Inl e \<Rightarrow> Inl e
              | Inr (min_loss, reordered) \<Rightarrow> Inr (ReturnLossEst (mean min_loss) reordered))
         | _ \<Rightarrow> Inl TypeError)
      else if pit_from self = ''mix_it_gen'' then
        (case loss_func self of
           SourceAxis f \<Rightarrow>
             (case best_part_mix_it_generalized f est_targets targets of
                Inl e \<Rightarrow> Inl e
              | Inr (min_loss, reordered) \<Rightarrow> Inr (ReturnLossEst (mean min_loss) reordered))
         | _ \<Rightarrow> Inl TypeError)
      else Inr ReturnNone)"

text \<open>
  \<^verbatim>\<open>forward\<close>: read \<^verbatim>\<open>n_src = targets.shape[1]\<close>, assert \<^verbatim>\<open>n_src < 10\<close>, then
  dispatch on the mode.
\<close>

definition forward ::
  "'a lsa_fn \<Rightarrow> 'a new_empty_fn \<Rightarrow> 'a::linordered_field wrapper \<Rightarrow> 'a tensor \<Rightarrow> 'a tensor \<Rightarrow> bool
     \<Rightarrow> error + 'a forward_result" where
  "forward lsa new_empty self est_targets targets return_est =
     (case shape targets of
        B # n_src # _ \<Rightarrow>
          if \<not> n_src < 10 then Inl AssertionError
          else forward_dispatch lsa new_empty self est_targets targets return_est
      | _ \<Rightarrow> Inl IndexError)"

subsection \<open>The contract of the assignment solver\<close>

text \<open>
  \<^verbatim>\<open>linear_sum_assignment\<close> is documented to return, for a square cost matrix, a
  one-to-one assignment of columns to rows of least total cost. \<open>assignment_cost m col\<close>
  is the total cost of the assignment \<open>col\<close>; \<open>optimal_assignment\<close> says that \<open>col\<close>
  is a permutation of the row indices and that no permutation is cheaper;
  \<open>lsa_optimal_on lsa m\<close> says that the solver \<open>lsa\<close> returns such an assignment on
  the matrix \<open>m\<close>.
\<close>

definition assignment_cost :: "'a::comm_monoid_add list list \<Rightarrow> nat list \<Rightarrow> 'a" where
  "assignment_cost m col = sum_list (map (\<lambda>i. m ! i ! (col ! i)) [0..<length m])"

definition optimal_assignment :: "'a::linordered_field list list \<Rightarrow> nat list \<Rightarrow> bool" where
  "optimal_assignment m col =
     (col \<in> set (permutations (range (length m)))
      \<and> list_all (\<lambda>p. assignment_cost m col \<le> assignment_cost m p) (permutations (range (length m))))"

definition lsa_optimal_on :: "'a::linordered_field lsa_fn \<Rightarrow> 'a list list \<Rightarrow> bool" where
  "lsa_optimal_on lsa m =
     (case lsa m of Inl e \<Rightarrow> False | Inr (row_ind, col_ind) \<Rightarrow> optimal_assignment m col_ind)"

subsection \<open>Example inputs\<close>



definition example_new_empty :: "rat new_empty_fn" where
  "example_new_empty b n m = replicate b (replicate n (replicate m 0))"

definition failing_lsa :: "rat lsa_fn" where
  "failing_lsa m = Inl ValueError"

definition failing_src_loss :: "rat src_fn" where
  "failing_src_loss e t = Inl RuntimeError"

definition failing_pw_mtx :: "rat pw_mtx_fn" where
  "failing_pw_mtx e t = Inl RuntimeError"

definition example_pw4 :: "rat tensor" where
  "example_pw4 = \<lparr>shape = [1, 4, 4],
      rows = [[[1, 0, 0, 0], [0, 1, 0, 0], [0, 0, 1, 0], [0, 0, 0, 1]]]\<rparr>"

definition example_pw2 :: "rat tensor" where
  "example_pw2 = \<lparr>shape = [2, 2, 2], rows = [[[1, 2], [3, 1]], [[5, 1], [1, 5]]]\<rparr>"

definition example_sum_reduce :: "rat reduce_fn" where
  "example_sum_reduce pwl_set = Inr (map (map sum_list) pwl_set)"

definition example_est3 :: "rat tensor" where
  "example_est3 = \<lparr>shape = [1, 3, 1], rows = [[[1], [2], [3]]]\<rparr>"

definition example_tgt2 :: "rat tensor" where
  "example_tgt2 = \<lparr>shape = [1, 2, 1], rows = [[[3], [3]]]\<rparr>"

definition example_tgt10 :: "rat tensor" where
  "example_tgt10 = \<lparr>shape = [1, 10, 1], rows = [replicate 10 [0]]\<rparr>"

definition example_tgt9 :: "rat tensor" where
  "example_tgt9 = \<lparr>shape = [1, 9, 1], rows = [replicate 9 [0]]\<rparr>"

definition failing_wrapper :: "rat wrapper" where
  "failing_wrapper = \<lparr>loss_func = PairwiseMatrix failing_pw_mtx, pit_from = ''pw_mtx'', perm_reduce = None\<rparr>"



definition example_est :: "rat tensor" where
  "example_est = \<lparr>shape = [2, 2, 2], rows = [[[0, 1], [1, 0]], [[0, 1], [1, 0]]]\<rparr>"

definition example_tgt :: "rat tensor" where
  "example_tgt = \<lparr>shape = [2, 2, 2], rows = [[[1, 0], [0, 1]], [[1, 0], [0, 1]]]\<rparr>"



definition example_lsa :: "rat lsa_fn" where
  "example_lsa m = Inr ([0, 1, 2, 3], [3, 2, 1, 0])"

definition example_tie :: "rat tensor" where
  "example_tie = \<lparr>shape = [1, 3, 3], rows = [[[0, 5, 0], [5, 0, 0], [0, 0, 5]]]\<rparr>"

section \<open>Properties\<close>

subsection \<open>Mode validation at construction\<close>

text \<open>
  C5. Constructing the wrapper with a mode string that is not one of \<^verbatim>\<open>'pw_mtx'\<close>,
  \<^verbatim>\<open>'pw_pt'\<close>, \<^verbatim>\<open>'perm_avg'\<close>, \<^verbatim>\<open>'mix_it'\<close>, \<^verbatim>\<open>'mix_it_gen'\<close> raises
  \<^verbatim>\<open>ValueError\<close> in the constructor, so no wrapper object exists on which
  \<open>forward\<close> could be called; with any of the five strings the constructor returns
  the wrapper holding the three arguments.
\<close>

theorem init_validates_mode:
  "(pf \<notin> {''pw_mtx'', ''pw_pt'', ''perm_avg'', ''mix_it'', ''mix_it_gen''}
      \<longrightarrow> init lf pf pr = Inl ValueError \<and> (\<nexists>w. init lf pf pr = Inr w))
   \<and> (pf \<in> {''pw_mtx'', ''pw_pt'', ''perm_avg'', ''mix_it'', ''mix_it_gen''}
      \<longrightarrow> init lf pf pr = Inr \<lparr>loss_func = lf, pit_from = pf, perm_reduce = pr\<rparr>)"
  by (simp add: init_def supported_modes_def)

theorem init_validates_mode_witness:
  "init (0::nat) ''mix_it_gen'' (None :: nat option)
     = Inr \<lparr>loss_func = 0, pit_from = ''mix_it_gen'', perm_reduce = None\<rparr>
   \<and> init (0::nat) ''pw_mat'' (None :: nat option) = Inl ValueError
   \<and> init (0::nat) '''' (None :: nat option) = Inl ValueError"
  using init_validates_mode [of "''mix_it_gen''" "0::nat" "None :: nat option"]
    init_validates_mode [of "''pw_mat''" "0::nat" "None :: nat option"]
    init_validates_mode [of "''''" "0::nat" "None :: nat option"]
  by simp

subsection \<open>itertools.combinations\<close>

lemma length_combinations: "length (combinations xs k) = length xs choose k"
  by (induction xs k rule: combinations.induct) auto

lemma Nil_subseqs: "[] \<in> set (subseqs xs)"
  by (induction xs) (auto simp: Let_def)

lemma subseqs_length_le: "c \<in> set (subseqs xs) \<Longrightarrow> length c \<le> length xs"
  by (induction xs arbitrary: c) (auto simp: Let_def le_SucI)

lemma set_combinations: "set (combinations xs k) = {ys \<in> set (subseqs xs). length ys = k}"
  by (induction xs k rule: combinations.induct) (auto simp: Let_def Nil_subseqs)

lemma combinations_subset: "c \<in> set (combinations xs k) \<Longrightarrow> set c \<subseteq> set xs"
  using subseqs_powset[of xs] by (auto simp: set_combinations)


lemma distinct_subseqs_list: "distinct xs \<Longrightarrow> distinct (subseqs xs)"
  using distinct_set_subseqs[of xs] by (simp add: distinct_map)

text \<open>What is left of a duplicate-free list after a \<open>k\<close>-combination is taken out.\<close>

lemma rest_length:
  "c \<in> set (combinations xs k) \<Longrightarrow> distinct xs
     \<Longrightarrow> length (filter (\<lambda>x. x \<notin> set c) xs) + k = length xs"
proof (induction xs k arbitrary: c rule: combinations.induct)
  case (1 xs) then show ?case by simp
next
  case (2 k) then show ?case by simp
next
  case (3 x xs k)
  from "3.prems" have dx: "x \<notin> set xs" "distinct xs" by auto
  from "3.prems"(1) consider c' where "c = x # c'" "c' \<in> set (combinations xs k)"
    | "c \<in> set (combinations xs (Suc k))" by auto
  then show ?case
  proof cases
    case 1
    have "filter (\<lambda>y. y \<notin> set c) xs = filter (\<lambda>y. y \<notin> set c') xs"
      using dx 1 by (auto intro: filter_cong)
    with "3.IH"(1)[OF 1(2) dx(2)] 1 show ?thesis by simp
  next
    case 2
    with combinations_subset[OF 2] dx have "x \<notin> set c" by auto
    with "3.IH"(2)[OF 2 dx(2)] show ?thesis by simp
  qed
qed

subsection \<open>Equal-size partitions: how many candidates \<open>combs\<close> yields\<close>

text \<open>
  On \<open>k * l\<close> distinct indices \<open>combs\<close> yields \<open>(k*l)! / (k!)^l\<close> lists of groups: the
  first group is any of the \<open>k\<close>-combinations, and for each of them the remaining
  \<open>k * (l - 1)\<close> indices are split recursively. Nothing removes the reorderings
  of the groups, so the divisor \<open>l!\<close> of the comment above \<^verbatim>\<open>combs\<close> in the source
  (\<^verbatim>\<open>NPK(n,k) = n! / ((k!)^l * l!)\<close>) does not appear.
\<close>

lemma combs_count:
  "distinct lst \<Longrightarrow> length lst = k * l \<Longrightarrow> length (combs lst k l) * fact k ^ l = fact (k * l)"
proof (induction l arbitrary: lst)
  case 0
  then show ?case by simp
next
  case (Suc l)
  have each: "length (combs (filter (\<lambda>x. x \<notin> set c) lst) k l) * fact k ^ l = fact (k * l)"
    if "c \<in> set (combinations lst k)" for c
  proof -
    from rest_length[OF that Suc.prems(1)] Suc.prems(2)
    have "length (filter (\<lambda>x. x \<notin> set c) lst) = k * l" by simp
    moreover have "distinct (filter (\<lambda>x. x \<notin> set c) lst)" using Suc.prems(1) by simp
    ultimately show ?thesis by (rule Suc.IH[rotated])
  qed
  have "length (combs lst k (Suc l)) * fact k ^ l
      = (\<Sum>c\<leftarrow>combinations lst k. length (combs (filter (\<lambda>x. x \<notin> set c) lst) k l) * fact k ^ l)"
    by (simp add: length_concat comp_def sum_list_mult_const)
  also have "\<dots> = (\<Sum>c\<leftarrow>combinations lst k. fact (k * l))"
    by (rule arg_cong[where f = sum_list], rule map_cong[OF refl]) (rule each)
  also have "\<dots> = (k * Suc l choose k) * fact (k * l)"
    by (simp add: sum_list_triv length_combinations Suc.prems(2))
  finally have "length (combs lst k (Suc l)) * fact k ^ Suc l
      = fact k * fact (k * Suc l - k) * (k * Suc l choose k)"
    by (simp add: algebra_simps)
  also have "\<dots> = fact (k * Suc l)"
    by (rule binomial_fact_lemma) simp
  finally show ?case .
qed

lemma combs_range_count:
  "length (combs (range (k * l)) k l) * fact k ^ l = fact (k * l)"
  by (rule combs_count) (simp_all add: range_def)

text \<open>
  C1. With \<open>n_est = 4\<close> estimates and \<open>n_mixtures = 2\<close> mixtures (\<open>n_src = 2\<close>) the
  equal-size engine evaluates the candidates \<^verbatim>\<open>combs(range(4), 2, 2)\<close>. They are six
  lists of groups, not three: each of the three partitions of \<open>{0,1,2,3}\<close> into two
  pairs occurs twice, once in each order of its groups (as sets of groups the six
  candidates are three). The formula \<open>4! / ((2!)^2 * 2!)\<close> of the claim gives \<open>3\<close>.
\<close>

theorem combs_4_2_yields_six:
  "combs (range 4) 2 2 =
     [[[0, 1], [2, 3]], [[0, 2], [1, 3]], [[0, 3], [1, 2]],
      [[1, 2], [0, 3]], [[1, 3], [0, 2]], [[2, 3], [0, 1]]]
   \<and> length (combs (range 4) 2 2) = 6
   \<and> card ((\<lambda>p. set (map set p)) ` set (combs (range 4) 2 2)) = 3
   \<and> fact 4 div (fact 2 ^ 2 * fact 2) = (3::nat)"
  by code_simp

subsection \<open>Generalized two-mixture splits\<close>

lemma set_all_combinations:
  "set (all_combinations xs) = (\<lambda>c. [c, filter (\<lambda>x. x \<notin> set c) xs]) ` set (subseqs xs)"
proof -
  have "length c \<le> length xs" if "c \<in> set (subseqs xs)" for c
    using that by (rule subseqs_length_le)
  then have "c \<in> set (subseqs xs) \<longleftrightarrow> (\<exists>k\<in>{0..<length xs + 1}. c \<in> set (combinations xs k))" for c
    by (auto simp: set_combinations less_Suc_eq_le simp del: upt_Suc)
  then have "set (subseqs xs) = (\<Union>k\<in>{0..<length xs + 1}. set (combinations xs k))"
    by blast
  then show ?thesis
    unfolding all_combinations_def by (simp add: image_UN del: upt_Suc)
qed

lemma length_all_combinations: "length (all_combinations xs) = 2 ^ length xs"
proof -
  have "length (all_combinations xs) = (\<Sum>k\<leftarrow>[0..<length xs + 1]. length xs choose k)"
    unfolding all_combinations_def by (simp add: length_concat comp_def length_combinations)
  also have "\<dots> = (\<Sum>k\<le>length xs. length xs choose k)"
    by (simp add: interv_sum_list_conv_sum_set_nat atLeast0AtMost
        atLeastLessThanSuc_atLeastAtMost del: upt_Suc)
  also have "\<dots> = 2 ^ length xs" by (rule choose_row_sum)
  finally show ?thesis .
qed

lemma distinct_all_combinations:
  assumes "distinct xs" shows "distinct (all_combinations xs)"
proof (rule card_distinct)
  have inj: "inj_on (\<lambda>c. [c, filter (\<lambda>x. x \<notin> set c) xs]) (set (subseqs xs))"
    by (rule inj_onI) simp
  have "card (set (all_combinations xs)) = card (set (subseqs xs))"
    by (simp add: set_all_combinations card_image[OF inj])
  also have "\<dots> = length (subseqs xs)"
    by (rule distinct_card) (rule distinct_subseqs_list[OF assms])
  finally show "card (set (all_combinations xs)) = length (all_combinations xs)"
    by (simp add: length_all_combinations length_subseqs)
qed

lemma subseqs_self: "xs \<in> set (subseqs xs)"
  by (induction xs) (auto simp: Let_def)

text \<open>
  C4. The generalized engine evaluates the candidates \<^verbatim>\<open>all_combinations(range(n_est))\<close>.
  There are exactly \<open>2 ^ n_est\<close> of them and no two are equal; each is a pair
  \<^verbatim>\<open>[c, rest]\<close> of a first group \<open>c\<close> and the indices not in \<open>c\<close>; the first groups are
  exactly the subsequences of \<open>range(n_est)\<close>, so their index sets are all the subsets of
  \<open>{0..<n_est}\<close>; the split with the empty first group and the split with the empty
  second group are both among them.
\<close>

theorem all_combinations_enumerates_splits:
  "length (all_combinations (range n)) = 2 ^ n
   \<and> distinct (all_combinations (range n))
   \<and> set (all_combinations (range n))
       = (\<lambda>c. [c, filter (\<lambda>x. x \<notin> set c) (range n)]) ` set (subseqs (range n))
   \<and> (\<lambda>p. set (hd p)) ` set (all_combinations (range n)) = Pow {0..<n}
   \<and> [[], range n] \<in> set (all_combinations (range n))
   \<and> [range n, []] \<in> set (all_combinations (range n))"
proof -
  have len: "length (all_combinations (range n)) = 2 ^ n"
    by (simp add: length_all_combinations range_def)
  have dist: "distinct (all_combinations (range n))"
    by (rule distinct_all_combinations) (simp add: range_def)
  have "(\<lambda>p. set (hd p)) ` set (all_combinations (range n)) = set ` set (subseqs (range n))"
    by (simp add: set_all_combinations image_image)
  also have "\<dots> = Pow {0..<n}"
    by (simp add: subseqs_powset range_def)
  finally have pow: "(\<lambda>p. set (hd p)) ` set (all_combinations (range n)) = Pow {0..<n}" .
  have e1: "[[], range n] \<in> set (all_combinations (range n))"
    unfolding set_all_combinations using Nil_subseqs[of "range n"] by force
  have "[range n, filter (\<lambda>x. x \<notin> set (range n)) (range n)] \<in> set (all_combinations (range n))"
    unfolding set_all_combinations using subseqs_self[of "range n"] by blast
  then have e2: "[range n, []] \<in> set (all_combinations (range n))"
    by simp
  from len dist pow e1 e2 show ?thesis
    by (simp add: set_all_combinations)
qed

theorem all_combinations_enumerates_splits_witness:
  "all_combinations (range 3) =
     [[[], [0, 1, 2]], [[0], [1, 2]], [[1], [0, 2]], [[2], [0, 1]],
      [[0, 1], [2]], [[0, 2], [1]], [[1, 2], [0]], [[0, 1, 2], []]]
   \<and> length (all_combinations (range 3)) = 8
   \<and> distinct (all_combinations (range 3))"
proof -
  have "all_combinations (range 3) =
     [[[], [0, 1, 2]], [[0], [1, 2]], [[1], [0, 2]], [[2], [0, 1]],
      [[0, 1], [2]], [[0, 2], [1]], [[1, 2], [0]], [[0, 1, 2], []]]"
    by code_simp
  moreover have "length (all_combinations (range 3)) = 8 \<and> distinct (all_combinations (range 3))"
    using all_combinations_enumerates_splits [of 3] by simp
  ultimately show ?thesis by blast
qed

subsection \<open>Dispatch between the two permutation searches\<close>

text \<open>
  C2. \<open>find_best_perm\<close> is the exhaustive factorial search exactly when a reduction
  function is supplied or \<open>n_src \<le> 3\<close> (\<open>n_src\<close> is the last dimension of the pairwise
  matrix), and the bipartite matching through \<^verbatim>\<open>linear_sum_assignment\<close> in every
  other case. The result is the result of the chosen search as it is, an exception
  included: nothing calls the other search when the chosen one raises.
\<close>

theorem find_best_perm_dispatch:
  "shape pwl \<noteq> [] \<Longrightarrow>
     (reduce_opt \<noteq> None \<or> last (shape pwl) \<le> 3
        \<longrightarrow> find_best_perm lsa pwl reduce_opt = find_best_perm_factorial pwl reduce_opt)
   \<and> (reduce_opt = None \<and> 3 < last (shape pwl)
        \<longrightarrow> find_best_perm lsa pwl reduce_opt = find_best_perm_hungarian lsa pwl)"
  by (cases "shape pwl") (auto simp: find_best_perm_def Let_def)

theorem find_best_perm_dispatch_witness:
  "find_best_perm failing_lsa example_pw4 None = Inl ValueError
   \<and> find_best_perm failing_lsa example_pw4 (Some example_sum_reduce) = Inr ([0], [[1, 0, 3, 2]])
   \<and> find_best_perm failing_lsa example_pw2 None = Inr ([1, 1], [[0, 1], [1, 0]])"
proof -
  have s: "shape example_pw4 \<noteq> []" "shape example_pw2 \<noteq> []"
    "last (shape example_pw4) = 4" "last (shape example_pw2) = 2"
    by (simp_all add: example_pw4_def example_pw2_def)
  have h: "find_best_perm_hungarian failing_lsa example_pw4 = Inl ValueError"
    by code_simp
  have f4: "find_best_perm_factorial example_pw4 (Some example_sum_reduce) = Inr ([0], [[1, 0, 3, 2]])"
    by code_simp
  have f2: "find_best_perm_factorial example_pw2 None = Inr ([1, 1], [[0, 1], [1, 0]])"
    by code_simp
  from find_best_perm_dispatch [OF s(1), of None failing_lsa]
    find_best_perm_dispatch [OF s(1), of "Some example_sum_reduce" failing_lsa]
    find_best_perm_dispatch [OF s(2), of None failing_lsa]
  show ?thesis
    by (simp add: s h f4 f2)
qed

subsection \<open>Configuration errors of the partition searches\<close>

text \<open>
  C6. On estimates of shape \<open>[B, n_est, T]\<close> and mixtures of shape \<open>[B, n_mixtures, T]\<close>
  (so that the two shape assertions at the top of both functions hold), the equal-size
  search raises \<^verbatim>\<open>ValueError\<close> whenever \<open>n_mixtures\<close>, a positive number, does not
  divide \<open>n_est\<close>, and the generalized search raises \<^verbatim>\<open>ValueError\<close> whenever
  \<open>n_mixtures \<noteq> 2\<close>. This holds for every loss callback, also one that raises on
  each call: the callback is not reached and there is no result.
\<close>

theorem partition_search_configuration_errors:
  "shape est_targets = [B, n_est, T] \<Longrightarrow> shape targets = [B, n_mixtures, T] \<Longrightarrow>
     (0 < n_mixtures \<and> \<not> n_mixtures dvd n_est
        \<longrightarrow> best_part_mix_it lossf est_targets targets = Inl ValueError)
   \<and> (n_mixtures \<noteq> 2
        \<longrightarrow> best_part_mix_it_generalized lossf est_targets targets = Inl ValueError)"
  by (simp add: best_part_mix_it_def best_part_mix_it_generalized_def dvd_eq_mod_eq_0)

theorem partition_search_configuration_errors_witness:
  "best_part_mix_it failing_src_loss example_est3 example_tgt2 = Inl ValueError
   \<and> best_part_mix_it_generalized failing_src_loss example_est3 example_est3 = Inl ValueError"
  using partition_search_configuration_errors [of example_est3 1 3 1 example_tgt2 2 failing_src_loss]
    partition_search_configuration_errors [of example_est3 1 3 1 example_est3 3 failing_src_loss]
  by (simp add: example_est3_def example_tgt2_def)

subsection \<open>The ceiling on the number of sources\<close>

text \<open>
  C9. When dimension 1 of \<^verbatim>\<open>targets\<close> is 10 or more, \<open>forward\<close> raises
  \<^verbatim>\<open>AssertionError\<close> whatever the mode and the callbacks are, so before any search;
  when it is below 10 the assertion passes and \<open>forward\<close> is the dispatch on the mode.
\<close>

theorem forward_source_ceiling:
  "shape targets = B # n_src # rest \<Longrightarrow>
     (10 \<le> n_src
        \<longrightarrow> forward lsa new_empty self est_targets targets return_est = Inl AssertionError)
   \<and> (n_src < 10
        \<longrightarrow> forward lsa new_empty self est_targets targets return_est
            = forward_dispatch lsa new_empty self est_targets targets return_est)"
  by (simp add: forward_def)

theorem forward_source_ceiling_witness:
  "forward failing_lsa example_new_empty failing_wrapper example_tgt10 example_tgt10 False
     = Inl AssertionError
   \<and> forward failing_lsa example_new_empty failing_wrapper example_tgt9 example_tgt9 False
     = Inl RuntimeError"
proof -
  have d: "forward_dispatch failing_lsa example_new_empty failing_wrapper example_tgt9 example_tgt9 False
             = Inl RuntimeError"
    by (simp add: forward_dispatch_def failing_wrapper_def failing_pw_mtx_def)
  have s10: "shape example_tgt10 = 1 # 10 # [1]" and s9: "shape example_tgt9 = 1 # 9 # [1]"
    by (simp_all add: example_tgt10_def example_tgt9_def)
  from forward_source_ceiling [OF s10, of failing_lsa example_new_empty failing_wrapper example_tgt10 False]
    forward_source_ceiling [OF s9, of failing_lsa example_new_empty failing_wrapper example_tgt9 False]
  show ?thesis
    by (simp add: d)
qed

subsection \<open>Outcomes of the sequenced steps\<close>

lemma collect_map_Inr:
  "(\<And>x. x \<in> set xs \<Longrightarrow> f x = Inr (g x)) \<Longrightarrow> collect (map f xs) = Inr (map g xs)"
  by (induction xs) auto

lemma collect_Inr_D:
  "collect rs = Inr ys \<Longrightarrow> rs = map Inr ys"
proof (induction rs arbitrary: ys)
  case Nil then show ?case by simp
next
  case (Cons r rs)
  then show ?case by (cases r) (auto split: sum.splits)
qed

lemma torch_min_None: "torch_min xs = None \<longleftrightarrow> xs = []"
  by (cases xs) (auto split: option.splits)

lemma torch_min_first:
  "torch_min xs = Some (v, i) \<Longrightarrow>
     i < length xs \<and> xs ! i = v \<and> (\<forall>j<length xs. v \<le> xs ! j) \<and> (\<forall>j<i. v < xs ! j)"
proof (induction xs arbitrary: v i)
  case Nil then show ?case by simp
next
  case (Cons x xs)
  show ?case
  proof (cases "torch_min xs")
    case None
    then have "xs = []" by (simp add: torch_min_None)
    with Cons.prems show ?thesis by simp
  next
    case (Some p)
    obtain m k where p: "p = (m, k)" by (cases p)
    note IH = Cons.IH[OF Some[unfolded p]]
    show ?thesis
    proof (cases "x \<le> m")
      case True
      with Cons.prems Some p have "v = x" "i = 0" by auto
      moreover have "x \<le> (x # xs) ! j" if "j < length (x # xs)" for j
        using that IH True by (cases j) (auto intro: order_trans)
      ultimately show ?thesis by simp
    next
      case False
      with Cons.prems Some p have vi: "v = m" "i = Suc k" by auto
      have "m \<le> (x # xs) ! j" if "j < length (x # xs)" for j
        using that IH False by (cases j) auto
      moreover have "m < (x # xs) ! j" if "j < Suc k" for j
        using that IH False by (cases j) auto
      ultimately show ?thesis using vi IH by simp
    qed
  qed
qed

lemma torch_min_dim1_D:
  assumes "torch_min_dim1 loss_set = Inr (min_loss, min_loss_idx)"
  shows "length min_loss = length loss_set" "length min_loss_idx = length loss_set"
    "\<And>b. b < length loss_set \<Longrightarrow> torch_min (loss_set ! b) = Some (min_loss ! b, min_loss_idx ! b)"
proof -
  from assms obtain ps where
    c: "collect (map (\<lambda>r. case torch_min r of None \<Rightarrow> Inl RuntimeError | Some p \<Rightarrow> Inr p) loss_set) = Inr ps"
    and m: "min_loss = map fst ps" "min_loss_idx = map snd ps"
    by (auto simp: torch_min_dim1_def split: sum.splits)
  from collect_Inr_D[OF c]
  have e: "map (\<lambda>r. case torch_min r of None \<Rightarrow> Inl RuntimeError | Some p \<Rightarrow> Inr p) loss_set = map Inr ps" .
  from arg_cong[OF e, of length] have len: "length ps = length loss_set"
    by simp
  show "length min_loss = length loss_set" "length min_loss_idx = length loss_set"
    using m len by simp_all
  fix b assume b: "b < length loss_set"
  from arg_cong[OF e, of "\<lambda>xs. xs ! b"] b len
  have "(case torch_min (loss_set ! b) of None \<Rightarrow> Inl RuntimeError | Some p \<Rightarrow> Inr p) = Inr (ps ! b)"
    by simp
  then have "torch_min (loss_set ! b) = Some (ps ! b)"
    by (auto split: option.splits)
  then show "torch_min (loss_set ! b) = Some (min_loss ! b, min_loss_idx ! b)"
    using m b len by simp
qed

lemma torch_stack_D: "torch_stack ts = Inr us \<Longrightarrow> us = ts \<and> ts \<noteq> []"
  by (auto simp: torch_stack_def split: list.splits)

lemma select_perms_D:
  assumes "select_perms perms idx = Inr batch_indices"
  shows "length batch_indices = length idx"
    "\<And>b. b < length idx \<Longrightarrow> idx ! b < length perms \<and> batch_indices ! b = perms ! (idx ! b)"
proof -
  from assms obtain ps where
    c: "collect (map (\<lambda>m. if m < length perms then Inr (perms ! m) else Inl IndexError) idx) = Inr ps"
    and s: "torch_stack ps = Inr batch_indices"
    by (auto simp: select_perms_def split: sum.splits)
  from torch_stack_D[OF s] have bi: "batch_indices = ps" by simp
  from collect_Inr_D[OF c]
  have e: "map (\<lambda>m. if m < length perms then Inr (perms ! m) else Inl IndexError) idx = map Inr ps" .
  from arg_cong[OF e, of length] have len: "length ps = length idx" by simp
  then show "length batch_indices = length idx" using bi by simp
  fix b assume b: "b < length idx"
  from arg_cong[OF e, of "\<lambda>xs. xs ! b"] b len
  have "(if idx ! b < length perms then Inr (perms ! (idx ! b)) else Inl IndexError) = Inr (ps ! b)"
    by simp
  then show "idx ! b < length perms \<and> batch_indices ! b = perms ! (idx ! b)"
    using bi by (auto split: if_splits)
qed


lemma wf_tensor_D:
  assumes "wf_tensor t" "shape t = [B, N, T]"
  shows "length (rows t) = B" "\<And>m. m \<in> set (rows t) \<Longrightarrow> length m = N"
    "\<And>m r. m \<in> set (rows t) \<Longrightarrow> r \<in> set m \<Longrightarrow> length r = T"
  using assms by (auto simp: wf_tensor_def list_all_iff)

subsection \<open>Ties in the factorial search\<close>

text \<open>
  C8. Whenever the factorial search returns, the permutation it returns for batch row
  \<open>b\<close> is the entry of \<^verbatim>\<open>list(permutations(range(n_src)))\<close> at an index \<open>m\<close> where
  the row \<open>b\<close> of \<^verbatim>\<open>loss_set\<close> is minimal, the loss returned is that minimum, and every
  permutation before index \<open>m\<close> has a strictly greater score: among the permutations
  that attain the minimum it is the first of the enumeration. This holds with and
  without a reduction function, and rests on \<^verbatim>\<open>torch.min\<close> returning the index of
  the first minimal value.
\<close>

theorem factorial_ties_first_occurrence:
  assumes "find_best_perm_factorial pair_wise_losses reduce_opt = Inr (min_loss, batch_indices)"
  shows "\<exists>loss_set. factorial_loss_set pair_wise_losses reduce_opt = Inr loss_set
           \<and> length batch_indices = length loss_set \<and> length min_loss = length loss_set
           \<and> (\<forall>b<length loss_set. \<exists>m<length (loss_set ! b).
                 batch_indices ! b = permutations (range (last (shape pair_wise_losses))) ! m
               \<and> min_loss ! b = loss_set ! b ! m
               \<and> (\<forall>j<length (loss_set ! b). loss_set ! b ! m \<le> loss_set ! b ! j)
               \<and> (\<forall>j<m. loss_set ! b ! m < loss_set ! b ! j))"
proof -
  let ?perms = "permutations (range (last (shape pair_wise_losses)))"
  note d = find_best_perm_factorial_def
  from assms obtain loss_set where
    ls: "factorial_loss_set pair_wise_losses reduce_opt = Inr loss_set"
    by (cases "factorial_loss_set pair_wise_losses reduce_opt") (simp_all add: d)
  from assms ls obtain ml mi where
    tm0: "torch_min_dim1 loss_set = Inr (ml, mi)"
    by (cases "torch_min_dim1 loss_set") (auto simp: d)
  from assms ls tm0 obtain bi where
    sp0: "select_perms ?perms mi = Inr bi"
    by (cases "select_perms ?perms mi") (simp_all add: d)
  from assms ls tm0 sp0 have "ml = min_loss" "bi = batch_indices"
    by (simp_all add: d)
  with tm0 sp0 obtain min_loss_idx where
    tm: "torch_min_dim1 loss_set = Inr (min_loss, min_loss_idx)"
    and sp: "select_perms ?perms min_loss_idx = Inr batch_indices"
    by blast
  note T = torch_min_dim1_D[OF tm] and S = select_perms_D[OF sp]
  have row: "\<exists>m<length (loss_set ! b).
           batch_indices ! b = ?perms ! m \<and> min_loss ! b = loss_set ! b ! m
         \<and> (\<forall>j<length (loss_set ! b). loss_set ! b ! m \<le> loss_set ! b ! j)
         \<and> (\<forall>j<m. loss_set ! b ! m < loss_set ! b ! j)" if b: "b < length loss_set" for b
  proof -
    define m where "m = min_loss_idx ! b"
    from torch_min_first[OF T(3)[OF b]]
    have f: "m < length (loss_set ! b)" "loss_set ! b ! m = min_loss ! b"
      "\<forall>j<length (loss_set ! b). min_loss ! b \<le> loss_set ! b ! j"
      "\<forall>j<m. min_loss ! b < loss_set ! b ! j"
      unfolding m_def by blast+
    from S(2)[of b] b T(2) have "batch_indices ! b = ?perms ! m"
      unfolding m_def by simp
    with f show ?thesis by (intro exI[of _ m]) simp
  qed
  have "length batch_indices = length loss_set" "length min_loss = length loss_set"
    using T(1,2) S(1) by simp_all
  with ls row show ?thesis by blast
qed

theorem factorial_ties_first_occurrence_witness:
  "find_best_perm_factorial example_tie None = Inr ([0], [[0, 2, 1]])
   \<and> factorial_loss_set example_tie None = Inr [[5 / 3, 0, 5, 5 / 3, 5 / 3, 0]]
   \<and> permutations (range 3) = [[0, 1, 2], [0, 2, 1], [1, 0, 2], [1, 2, 0], [2, 0, 1], [2, 1, 0]]"
proof -
  have f: "find_best_perm_factorial example_tie None = Inr ([0], [[0, 2, 1]])"
    by code_simp
  have p: "permutations (range 3) = [[0, 1, 2], [0, 2, 1], [1, 0, 2], [1, 2, 0], [2, 0, 1], [2, 1, 0]]"
    by code_simp
  have l: "factorial_loss_set example_tie None = Inr [[5 / 3, 0, 5, 5 / 3, 5 / 3, 0]]"
    by code_simp
  from factorial_ties_first_occurrence [OF f] f p l show ?thesis
    by simp
qed

subsection \<open>Reordering the sources\<close>

text \<open>
  C7. For a source tensor of shape \<open>[B, N, T]\<close> with a non-empty batch and one row of
  \<open>n\<close> valid source indices per batch row (a permutation of \<open>range(N)\<close> is one, with
  \<open>n = N\<close>), \<open>reorder_source\<close> returns a tensor of shape \<open>[B, n, T]\<close> whose row \<open>b\<close>
  holds at position \<open>k\<close> the source \<open>batch_indices[b, k]\<close> of row \<open>b\<close> of the input; with
  the identity permutation on every row it returns the input.
\<close>

theorem reorder_source_selects:
  assumes wf: "wf_tensor source" and sh: "shape source = [B, N, T]" and B: "0 < B"
    and len: "length batch_indices = B"
    and idx: "\<forall>b\<in>set batch_indices. length b = n \<and> (\<forall>k\<in>set b. k < N)"
  shows "(\<exists>out. reorder_source source batch_indices = Inr out
            \<and> shape out = [B, n, T] \<and> length (rows out) = B
            \<and> (\<forall>b<B. length (rows out ! b) = n
                  \<and> (\<forall>k<n. rows out ! b ! k = rows source ! b ! (batch_indices ! b ! k))))
       \<and> (batch_indices = replicate B (range N) \<longrightarrow> reorder_source source batch_indices = Inr source)"
proof -
  note W = wf_tensor_D[OF wf sh]
  define sel where "sel = map (\<lambda>(s, b). map (\<lambda>k. s ! k) b) (zip (rows source) batch_indices)"
  have "index_select0 s b = Inr (map (\<lambda>k. s ! k) b)"
    if "(s, b) \<in> set (zip (rows source) batch_indices)" for s b
  proof -
    from that have "s \<in> set (rows source)" "b \<in> set batch_indices"
      by (auto dest: set_zip_leftD set_zip_rightD)
    with W(2) idx show ?thesis by (auto simp: index_select0_def list_all_iff)
  qed
  then have c: "collect (map (\<lambda>(s, b). index_select0 s b) (zip (rows source) batch_indices)) = Inr sel"
    unfolding sel_def by (intro collect_map_Inr) auto
  have lsel: "length sel = B" using W(1) len by (simp add: sel_def)
  with B have ne: "sel \<noteq> []" by auto
  then have st: "torch_stack sel = Inr sel"
    by (cases sel) (simp_all add: torch_stack_def)
  have row: "sel ! b = map (\<lambda>k. rows source ! b ! k) (batch_indices ! b)" if "b < B" for b
    using that W(1) len by (simp add: sel_def)
  have lrow: "length (sel ! b) = n" if "b < B" for b
    using that idx len row by simp
  have hd: "length (hd sel) = n"
    using lrow[of 0] B ne by (simp add: hd_conv_nth)
  define out where "out = \<lparr>shape = [B, n, T], rows = sel\<rparr>"
  have res: "reorder_source source batch_indices = Inr out"
    by (simp add: reorder_source_def sh c st hd lsel out_def)
  have sel: "length (rows out ! b) = n
      \<and> (\<forall>k<n. rows out ! b ! k = rows source ! b ! (batch_indices ! b ! k))" if b: "b < B" for b
  proof -
    from b idx len have "length (batch_indices ! b) = n" by simp
    with row[OF b] show ?thesis by (simp add: out_def)
  qed
  have ident: "reorder_source source batch_indices = Inr source"
    if id: "batch_indices = replicate B (range N)"
  proof -
    from id idx B have n: "n = N" by (auto simp: range_def)
    have "sel = rows source"
    proof (rule nth_equalityI)
      show "length sel = length (rows source)" using lsel W(1) by simp
      fix b assume "b < length sel"
      with lsel have b: "b < B" by simp
      with W(1,2) have "length (rows source ! b) = N" by simp
      with map_nth[of "rows source ! b"] have "map (\<lambda>k. rows source ! b ! k) [0..<N] = rows source ! b"
        by simp
      with row[OF b] id b show "sel ! b = rows source ! b"
        by (simp add: range_def)
    qed
    with res n sh show ?thesis by (simp add: out_def)
  qed
  have "shape out = [B, n, T]" "length (rows out) = B"
    by (simp_all add: out_def lsel)
  with res sel ident show ?thesis by blast
qed

theorem reorder_source_selects_witness:
  "reorder_source example_est [[1, 0], [1, 0]] = Inr example_tgt
   \<and> reorder_source example_est (replicate 2 (range 2)) = Inr example_est"
proof -
  have w: "wf_tensor example_est" by code_simp
  have s: "shape example_est = [2, 2, 2]" by (simp add: example_est_def)
  have i: "\<forall>b\<in>set (replicate 2 (range 2)). length b = 2 \<and> (\<forall>k\<in>set b. k < 2)"
    by (simp add: range_def)
  have a: "reorder_source example_est [[1, 0], [1, 0]] = Inr example_tgt"
    by code_simp
  from reorder_source_selects [OF w s _ _ i] a show ?thesis
    by simp
qed

subsection \<open>itertools.permutations enumerates the permutations\<close>

lemma picks_mset: "(y, ys) \<in> set (picks xs) \<Longrightarrow> mset xs = add_mset y (mset ys)"
  by (induction xs arbitrary: y ys) auto

lemma picks_complete: "y \<in> set xs \<Longrightarrow> \<exists>ys. (y, ys) \<in> set (picks xs)"
proof (induction xs)
  case Nil then show ?case by simp
next
  case (Cons x xs)
  show ?case
  proof (cases "y = x")
    case True then show ?thesis by auto
  next
    case False
    with Cons obtain ys where "(y, ys) \<in> set (picks xs)" by auto
    then have "(y, x # ys) \<in> set (picks (x # xs))" by force
    then show ?thesis by blast
  qed
qed

lemma permutations_r_sound:
  "p \<in> set (permutations_r r xs) \<Longrightarrow> r = length xs \<Longrightarrow> mset p = mset xs"
proof (induction r arbitrary: p xs)
  case 0 then show ?case by simp
next
  case (Suc r)
  from Suc.prems(1) obtain y ys q where
    pk: "(y, ys) \<in> set (picks xs)" and q: "q \<in> set (permutations_r r ys)" and p: "p = y # q"
    by auto
  from picks_mset[OF pk] have m: "mset xs = add_mset y (mset ys)" .
  then have "size (mset xs) = Suc (size (mset ys))" by simp
  with Suc.prems(2) have "r = length ys" by simp
  from Suc.IH[OF q this] m p show ?case by simp
qed

lemma permutations_r_complete:
  "mset p = mset xs \<Longrightarrow> p \<in> set (permutations_r (length xs) xs)"
proof (induction p arbitrary: xs)
  case Nil
  then have "xs = []" by simp
  then show ?case by simp
next
  case (Cons y p)
  have e1: "add_mset y (mset p) = mset xs"
    using Cons.prems by (simp only: mset.simps)
  have "y \<in># mset xs"
    by (rule union_single_eq_member[OF e1])
  then have "y \<in> set xs" by (simp only: set_mset_mset)
  from picks_complete[OF this] obtain ys where pk: "(y, ys) \<in> set (picks xs)" ..
  have e2: "mset xs = add_mset y (mset ys)"
    by (rule picks_mset[OF pk])
  from e1 e2 have "add_mset y (mset p) = add_mset y (mset ys)"
    by (rule trans)
  then have m: "mset p = mset ys"
    by (simp only: add_mset_add_mset_same_iff)
  from arg_cong[OF e2, of size] have l: "length xs = Suc (length ys)"
    by (simp only: size_mset size_add_mset)
  from Cons.IH[OF m]
  have a: "y # p \<in> set (map (\<lambda>q. y # q) (permutations_r (length ys) ys))"
    by simp
  have "(\<lambda>(z, zs). map (\<lambda>q. z # q) (permutations_r (length ys) zs)) (y, ys)
          \<in> (\<lambda>(z, zs). map (\<lambda>q. z # q) (permutations_r (length ys) zs)) ` set (picks xs)"
    using pk by (rule imageI)
  then have b: "map (\<lambda>q. y # q) (permutations_r (length ys) ys)
          \<in> set (map (\<lambda>(z, zs). map (\<lambda>q. z # q) (permutations_r (length ys) zs)) (picks xs))"
    by simp
  from a b have "y # p \<in> set (concat (map (\<lambda>(z, zs). map (\<lambda>q. z # q) (permutations_r (length ys) zs)) (picks xs)))"
    unfolding set_concat by blast
  then show ?case
    unfolding l by (simp only: permutations_r.simps)
qed

lemma set_permutations: "set (permutations xs) = {p. mset p = mset xs}"
  unfolding permutations_def
proof (intro set_eqI iffI)
  fix p assume "p \<in> set (permutations_r (length xs) xs)"
  then have "mset p = mset xs" by (rule permutations_r_sound) simp
  then show "p \<in> {p. mset p = mset xs}" by simp
next
  fix p assume "p \<in> {p. mset p = mset xs}"
  then have "mset p = mset xs" by simp
  then show "p \<in> set (permutations_r (length xs) xs)" by (rule permutations_r_complete)
qed

lemma permutations_nonempty: "permutations xs \<noteq> []"
proof -
  have "xs \<in> set (permutations xs)" by (simp add: set_permutations)
  then show ?thesis by auto
qed

lemma permutations_range_D:
  assumes "p \<in> set (permutations (range n))"
  shows "length p = n" "\<And>i. i < n \<Longrightarrow> p ! i < n"
proof -
  from assms have m: "mset p = mset [0..<n]" by (simp add: set_permutations range_def)
  from arg_cong[OF m, of size] show "length p = n" by simp
  from arg_cong[OF m, of set_mset] have "set p = {0..<n}" by simp
  moreover have "p ! i \<in> set p" if "i < n" for i
    using that \<open>length p = n\<close> by simp
  ultimately show "p ! i < n" if "i < n" for i
    using that by auto
qed

text \<open>The contract of the solver, in words: a least-cost one-to-one assignment.\<close>

lemma optimal_assignment_iff:
  "optimal_assignment m col \<longleftrightarrow>
     mset col = mset [0..<length m]
     \<and> (\<forall>p. mset p = mset [0..<length m] \<longrightarrow> assignment_cost m col \<le> assignment_cost m p)"
  by (auto simp: optimal_assignment_def set_permutations range_def list_all_iff)

subsection \<open>The factorial search computes assignment costs\<close>

lemma zip_map_upt:
  "length r = n \<Longrightarrow> zip r (map f [0..<n]) = map (\<lambda>j. (r ! j, f j)) [0..<n]"
  by (rule nth_equalityI) simp_all

lemma one_hot_row_sum:
  fixes r :: "'a::semiring_1 list"
  assumes "length r = n" "j0 < n"
  shows "sum_list (map (\<lambda>(x, y). x * y) (zip r (map (\<lambda>j. if j = j0 then 1 else 0) [0..<n]))) = r ! j0"
proof -
  have "sum_list (map (\<lambda>(x, y). x * y) (zip r (map (\<lambda>j. if j = j0 then 1 else 0) [0..<n])))
      = sum_list (map (\<lambda>j. r ! j * (if j = j0 then 1 else 0)) [0..<n])"
    by (simp add: zip_map_upt[OF assms(1)] comp_def)
  also have "\<dots> = (\<Sum>j\<in>{0..<n}. if j = j0 then r ! j else 0)"
    unfolding interv_sum_list_conv_sum_set_nat
    by (intro sum.cong) simp_all
  also have "\<dots> = r ! j0"
    using assms(2) by (simp add: sum.delta')
  finally show ?thesis .
qed

lemma einsum_entry:
  fixes m :: "'a::semiring_1 list list"
  assumes lm: "length m = n" and rows: "\<And>i. i < n \<Longrightarrow> length (m ! i) = n"
    and p: "\<And>i. i < n \<Longrightarrow> p ! i < n"
  shows "sum_list (map (\<lambda>(r, s). sum_list (map (\<lambda>(x, y). x * y) (zip r s))) (zip m (one_hot n p)))
           = assignment_cost m p"
proof -
  have "sum_list (map (\<lambda>(r, s). sum_list (map (\<lambda>(x, y). x * y) (zip r s))) (zip m (one_hot n p)))
      = sum_list (map (\<lambda>i. sum_list (map (\<lambda>(x, y). x * y)
            (zip (m ! i) (map (\<lambda>j. if j = p ! i then 1 else 0) [0..<n])))) [0..<n])"
    unfolding one_hot_def by (simp add: zip_map_upt[OF lm] comp_def)
  also have "\<dots> = sum_list (map (\<lambda>i. m ! i ! (p ! i)) [0..<n])"
  proof (rule arg_cong[where f = sum_list], rule map_cong[OF refl])
    fix i assume "i \<in> set [0..<n]"
    then have i: "i < n" by simp
    show "sum_list (map (\<lambda>(x, y). x * y) (zip (m ! i) (map (\<lambda>j. if j = p ! i then 1 else 0) [0..<n])))
            = m ! i ! (p ! i)"
      by (rule one_hot_row_sum[OF rows[OF i] p[OF i]])
  qed
  finally show ?thesis by (simp add: assignment_cost_def lm)
qed

lemma transpose_last2_dims:
  "length (transpose_last2 a c x) = c" "i < c \<Longrightarrow> length (transpose_last2 a c x ! i) = a"
  by (simp_all add: transpose_last2_def)

lemma factorial_loss_set_mean:
  fixes pwl :: "'a::linordered_field tensor"
  assumes sh: "shape pwl = [B, n, n]"
  shows "factorial_loss_set pwl None
           = Inr (map (\<lambda>m. map (\<lambda>p. assignment_cost m p / of_nat n) (permutations (range n)))
                      (map (transpose_last2 n n) (rows pwl)))"
proof -
  have e: "sum_list (map (\<lambda>(r, s). sum_list (map (\<lambda>(x, y). x * y) (zip r s)))
              (zip (transpose_last2 n n x) (one_hot n p)))
         = assignment_cost (transpose_last2 n n x) p"
    if "p \<in> set (permutations (range n))" for p and x :: "'a list list"
    by (rule einsum_entry) (simp_all add: transpose_last2_dims permutations_range_D(2)[OF that])
  have "einsum_bij_pij_bp (map (transpose_last2 n n) (rows pwl)) (map (one_hot n) (permutations (range n)))
      = map (\<lambda>m. map (\<lambda>p. assignment_cost m p) (permutations (range n)))
            (map (transpose_last2 n n) (rows pwl))"
    unfolding einsum_bij_pij_bp_def by (simp add: e comp_def cong: map_cong)
  then show ?thesis
    by (simp add: factorial_loss_set_def sh Let_def comp_def)
qed

lemma torch_min_dim1_total:
  assumes "\<And>r. r \<in> set loss_set \<Longrightarrow> r \<noteq> []"
  shows "\<exists>min_loss min_loss_idx. torch_min_dim1 loss_set = Inr (min_loss, min_loss_idx)"
proof -
  have "(case torch_min r of None \<Rightarrow> Inl RuntimeError | Some p \<Rightarrow> Inr p) = Inr (the (torch_min r))"
    if "r \<in> set loss_set" for r
    using assms[OF that] by (cases "torch_min r") (simp_all add: torch_min_None)
  then have "collect (map (\<lambda>r. case torch_min r of None \<Rightarrow> Inl RuntimeError | Some p \<Rightarrow> Inr p) loss_set)
      = Inr (map (\<lambda>r. the (torch_min r)) loss_set)"
    by (rule collect_map_Inr)
  then show ?thesis by (simp add: torch_min_dim1_def)
qed

lemma select_perms_total:
  assumes "\<And>m. m \<in> set idx \<Longrightarrow> m < length perms" "idx \<noteq> []"
  shows "\<exists>batch_indices. select_perms perms idx = Inr batch_indices"
proof -
  have "(if m < length perms then Inr (perms ! m) else Inl IndexError) = Inr (perms ! m)"
    if "m \<in> set idx" for m
    using assms(1)[OF that] by simp
  then have "collect (map (\<lambda>m. if m < length perms then Inr (perms ! m) else Inl IndexError) idx)
      = Inr (map (\<lambda>m. perms ! m) idx)"
    by (rule collect_map_Inr)
  moreover have "torch_stack (map (\<lambda>m. perms ! m) idx) = Inr (map (\<lambda>m. perms ! m) idx)"
    using assms(2) by (cases idx) (simp_all add: torch_stack_def)
  ultimately show ?thesis by (simp add: select_perms_def)
qed

lemma gather_mean_optimal:
  fixes m :: "'a::linordered_field list list"
  assumes "length m = n" "col \<in> set (permutations (range n))"
  shows "gather_mean n n m col = Inr (assignment_cost m col / of_nat n)"
proof -
  note P = permutations_range_D[OF assms(2)]
  have "list_all (\<lambda>j. j < n) col"
    unfolding list_all_length using P by simp
  then show ?thesis
    by (simp add: gather_mean_def P(1) mean_def assignment_cost_def assms(1))
qed

lemma row_min_optimal:
  fixes m :: "'a::linordered_field list list"
  assumes tm: "torch_min (map (\<lambda>p. assignment_cost m p / of_nat n) perms) = Some (v, i)"
    and col: "col \<in> set perms"
    and opt: "\<And>p. p \<in> set perms \<Longrightarrow> assignment_cost m col \<le> assignment_cost m p"
  shows "v = assignment_cost m col / of_nat n"
proof (rule antisym)
  note F = torch_min_first[OF tm]
  from F have i: "i < length perms" by simp
  with F have v: "v = assignment_cost m (perms ! i) / of_nat n"
    by auto
  from col obtain j where j: "j < length perms" "perms ! j = col"
    by (auto simp: in_set_conv_nth)
  from F j(1) have "v \<le> map (\<lambda>p. assignment_cost m p / of_nat n) perms ! j" by simp
  with j show "v \<le> assignment_cost m col / of_nat n" by simp
  from i have "perms ! i \<in> set perms" by simp
  from opt[OF this] have "assignment_cost m col / of_nat n \<le> assignment_cost m (perms ! i) / of_nat n"
    by (rule divide_right_mono) simp
  with v show "assignment_cost m col / of_nat n \<le> v" by simp
qed

subsection \<open>Agreement of the factorial and the matching search\<close>

text \<open>
  C3. On a pairwise loss tensor of shape \<open>[B, n_src, n_src]\<close> with a non-empty batch,
  without a reduction function, and with a solver that returns a least-cost
  assignment on every cost matrix of the batch, the factorial search and the
  matching search both return, and they return the same minimal mean loss for every
  batch row (the permutations may differ when several are optimal). The numbers are
  those of an ordered field, so the two sums are equal and not only close; the
  statement holds for every \<open>n_src\<close>, in particular for \<open>n_src \<le> 4\<close>.
\<close>

theorem factorial_hungarian_agree:
  fixes pair_wise_losses :: "'a::linordered_field tensor"
  assumes wf: "wf_tensor pair_wise_losses"
    and sh: "shape pair_wise_losses = [B, n_src, n_src]"
    and B: "0 < B"
    and lsa: "list_all (lsa_optimal_on lsa) (map (transpose_last2 n_src n_src) (rows pair_wise_losses))"
  shows "\<exists>min_loss batch_indices batch_indices'.
           find_best_perm_factorial pair_wise_losses None = Inr (min_loss, batch_indices)
         \<and> find_best_perm_hungarian lsa pair_wise_losses = Inr (min_loss, batch_indices')
         \<and> length min_loss = B"
proof -
  define ms where "ms = map (transpose_last2 n_src n_src) (rows pair_wise_losses)"
  define perms where "perms = permutations (range n_src)"
  define score where "score = (\<lambda>(m :: 'a list list) p. assignment_cost m p / of_nat n_src)"
  define ls where "ls = map (\<lambda>m. map (score m) perms) ms"
  have lms: "length ms = B"
    using wf_tensor_D(1)[OF wf sh] by (simp add: ms_def)
  have lm: "length m = n_src" if "m \<in> set ms" for m
    using that by (auto simp: ms_def transpose_last2_dims)
  have fls: "factorial_loss_set pair_wise_losses None = Inr ls"
    unfolding ls_def ms_def perms_def score_def by (rule factorial_loss_set_mean[OF sh])
  have lls: "length ls = B" by (simp add: ls_def lms)
  have pne: "perms \<noteq> []" unfolding perms_def by (rule permutations_nonempty)
  have "r \<noteq> []" if "r \<in> set ls" for r
    using that pne by (auto simp: ls_def)
  from torch_min_dim1_total[OF this] obtain ml mi where
    tm: "torch_min_dim1 ls = Inr (ml, mi)" by blast
  note T = torch_min_dim1_D[OF tm]
  have row: "torch_min (map (score (ms ! b)) perms) = Some (ml ! b, mi ! b)" if "b < B" for b
    using T(3)[of b] that lms by (simp add: ls_def)
  have "k < length perms" if "k \<in> set mi" for k
  proof -
    from that T(2) lls obtain b where b: "b < B" "mi ! b = k"
      by (auto simp: in_set_conv_nth)
    from torch_min_first[OF row[OF b(1)]] b(2) show ?thesis by simp
  qed
  moreover have "mi \<noteq> []" using T(2) lls B by auto
  ultimately obtain bi where sp: "select_perms perms mi = Inr bi"
    using select_perms_total by blast
  have fact: "find_best_perm_factorial pair_wise_losses None = Inr (ml, bi)"
    by (simp add: find_best_perm_factorial_def fls tm sh sp[unfolded perms_def])

  define colf where "colf = (\<lambda>m. snd (projr (lsa m)))"
  have opt: "lsa m = Inr (fst (projr (lsa m)), colf m) \<and> optimal_assignment m (colf m)"
    if "m \<in> set ms" for m
  proof -
    from lsa that have "lsa_optimal_on lsa m"
      by (auto simp: list_all_iff ms_def)
    then show ?thesis
      by (cases "lsa m") (auto simp: lsa_optimal_on_def colf_def)
  qed
  have colperm: "colf m \<in> set perms" if "m \<in> set ms" for m
    using opt[OF that] lm[OF that] by (simp add: optimal_assignment_def perms_def)
  have colopt: "assignment_cost m (colf m) \<le> assignment_cost m p"
    if "m \<in> set ms" "p \<in> set perms" for m p
    using opt[OF that(1)] lm[OF that(1)] that(2)
    by (simp add: optimal_assignment_def perms_def list_all_iff)
  have "(case lsa m of Inl e \<Rightarrow> Inl e | Inr (row_ind, col_ind) \<Rightarrow> Inr col_ind) = Inr (colf m)"
    if "m \<in> set ms" for m
    using opt[OF that] by (cases "lsa m") auto
  then have c1: "collect (map (\<lambda>m. case lsa m of Inl e \<Rightarrow> Inl e | Inr (row_ind, col_ind) \<Rightarrow> Inr col_ind) ms)
      = Inr (map colf ms)"
    by (rule collect_map_Inr)
  have "(case x of (m, col) \<Rightarrow> gather_mean n_src n_src m col) = Inr (score (fst x) (snd x))"
    if "x \<in> set (zip ms (map colf ms))" for x
  proof -
    obtain m col where x: "x = (m, col)" by (cases x)
    from that x have m: "m \<in> set ms" by (auto dest: set_zip_leftD)
    from that x have "col = colf m" by (auto simp: zip_map2 zip_same)
    with gather_mean_optimal[OF lm[OF m] colperm[OF m, unfolded perms_def]] x
    show ?thesis by (simp add: score_def)
  qed
  then have c2: "collect (map (\<lambda>(m, col). gather_mean n_src n_src m col) (zip ms (map colf ms)))
      = Inr (map (\<lambda>x. score (fst x) (snd x)) (zip ms (map colf ms)))"
    by (rule collect_map_Inr)
  define ml' where "ml' = map (\<lambda>x. score (fst x) (snd x)) (zip ms (map colf ms))"
  from lms B have mne: "ms \<noteq> []" by auto
  have "find_best_perm_hungarian lsa pair_wise_losses =
      (case collect (map (\<lambda>m. case lsa m of Inl e \<Rightarrow> Inl e | Inr (row_ind, col_ind) \<Rightarrow> Inr col_ind) ms) of
         Inl e \<Rightarrow> Inl e
       | Inr batch_indices \<Rightarrow>
           (case batch_indices of
              [] \<Rightarrow> Inl RuntimeError
            | _ \<Rightarrow>
              (case collect (map (\<lambda>(m, col). gather_mean n_src n_src m col) (zip ms batch_indices)) of
                 Inl e \<Rightarrow> Inl e
               | Inr min_loss \<Rightarrow> Inr (min_loss, batch_indices))))"
    unfolding find_best_perm_hungarian_def ms_def sh by (simp add: Let_def)
  also have "\<dots> = Inr (ml', map colf ms)"
    by (simp add: c1 c2 ml'_def list.case_eq_if mne)
  finally have hung: "find_best_perm_hungarian lsa pair_wise_losses = Inr (ml', map colf ms)" .
  have "ml = ml'"
  proof (rule nth_equalityI)
    show "length ml = length ml'" using T(1) lls lms by (simp add: ml'_def)
    fix b assume "b < length ml"
    with T(1) lls have b: "b < B" by simp
    then have m: "ms ! b \<in> set ms" using lms by simp
    from row_min_optimal[OF row[OF b, unfolded score_def] colperm[OF m] colopt[OF m]]
    have "ml ! b = score (ms ! b) (colf (ms ! b))" by (simp add: score_def)
    then show "ml ! b = ml' ! b" using b lms by (simp add: ml'_def)
  qed
  with fact hung T(1) lls show ?thesis by simp
qed

theorem factorial_hungarian_agree_witness:
  "find_best_perm_factorial example_pw4 None = Inr ([0], [[1, 0, 3, 2]])
   \<and> (\<exists>batch_indices'. find_best_perm_hungarian example_lsa example_pw4 = Inr ([0], batch_indices'))"
proof -
  have w: "wf_tensor example_pw4" by code_simp
  have s: "shape example_pw4 = [1, 4, 4]" by (simp add: example_pw4_def)
  have l: "list_all (lsa_optimal_on example_lsa) (map (transpose_last2 4 4) (rows example_pw4))"
    by code_simp
  have f: "find_best_perm_factorial example_pw4 None = Inr ([0], [[1, 0, 3, 2]])"
    by code_simp
  from factorial_hungarian_agree [OF w s _ l] f show ?thesis
    by auto
qed

subsection \<open>The partition searches return on well-formed input\<close>









subsection \<open>What forward returns in each mode\<close>







end
